theory Spec2Isabelle
  imports Complex_Main "HOL-Library.AList" "HOL-Library.Multiset"
begin

section \<open>Shared schema (shared/schema.ts)\<close>

text \<open>
  Identifiers, byte sizes and millisecond times are JavaScript numbers that only ever hold
  integers here; they are modelled as \<open>int\<close>.  The wall-clock columns \<open>uploadedAt\<close> and
  \<open>createdAt\<close> are left out.  The \<open>duration\<close> of a stored video holds whatever
  \<open>updateVideo\<close> is given, which in server/routes.ts is the string made by \<open>formatDuration\<close>.
\<close>

record video =
  v_id :: int
  v_filename :: string
  v_originalFilename :: string
  v_filePath :: string
  v_fileSize :: int
  v_duration :: "string option"
  v_format :: "string option"
  v_resolution :: "string option"
  v_processingStatus :: string

record clip =
  c_id :: int
  c_videoId :: int
  c_filename :: string
  c_filePath :: string
  c_thumbnailPath :: string
  c_startTime :: int
  c_endTime :: int
  c_duration :: int
  c_sceneIndex :: int

record videoInfo =
  vi_id :: int
  vi_filename :: string
  vi_originalFilename :: string
  vi_fileSize :: int
  vi_duration :: "string option"
  vi_format :: "string option"
  vi_resolution :: "string option"
  vi_processingStatus :: string
  vi_sceneCount :: "nat option"

record clipInfo =
  ci_id :: int
  ci_videoId :: int
  ci_sceneIndex :: int
  ci_startTime :: int
  ci_endTime :: int
  ci_duration :: int
  ci_timestamp :: string
  ci_url :: string
  ci_thumbnailUrl :: string

text \<open>\<open>processingStatusSchema\<close>: every field but \<open>status\<close> is optional.\<close>

record processingStatus =
  ps_videoId :: "int option"
  ps_status :: string
  ps_progress :: "int option"
  ps_stage :: "string option"
  ps_error :: "string option"
  ps_clips :: "clipInfo list option"
  ps_videoInfo :: "videoInfo option"

section \<open>Number formatting\<close>

text \<open>\<open>Number.prototype.toString\<close> on an integer, used by the template strings.\<close>

definition digit_char :: "nat \<Rightarrow> char" where
  "digit_char d = char_of (48 + d)"

function string_of_nat :: "nat \<Rightarrow> string" where
  "string_of_nat n =
     (if n < 10 then [digit_char n] else string_of_nat (n div 10) @ [digit_char (n mod 10)])"
  by pat_completeness auto
termination
  by (relation "measure (\<lambda>n. n)") auto

declare string_of_nat.simps [simp del]

definition string_of_int :: "int \<Rightarrow> string" where
  "string_of_int k = (if k < 0 then ''-'' @ string_of_nat (nat (- k)) else string_of_nat (nat k))"

text \<open>\<open>s.padStart(2, '0')\<close>.\<close>

definition padStart2 :: "string \<Rightarrow> string" where
  "padStart2 s = replicate (2 - length s) (CHR ''0'') @ s"

text \<open>JavaScript's \<open>%\<close> truncates towards zero: the remainder has the sign of the dividend.\<close>

definition js_rem :: "int \<Rightarrow> int \<Rightarrow> int" where
  "js_rem a b = (if a < 0 then - ((- a) mod \<bar>b\<bar>) else a mod \<bar>b\<bar>)"

definition formatDuration :: "int \<Rightarrow> string" where
  "formatDuration ms =
     (let totalSeconds = ms div 1000;
          hours = totalSeconds div 3600;
          minutes = js_rem totalSeconds 3600 div 60;
          seconds = js_rem totalSeconds 60
      in if hours > 0
         then padStart2 (string_of_int hours) @ '':'' @ padStart2 (string_of_int minutes)
                @ '':'' @ padStart2 (string_of_int seconds)
         else padStart2 (string_of_int minutes) @ '':'' @ padStart2 (string_of_int seconds))"

definition formatTimestamp :: "int \<Rightarrow> int \<Rightarrow> string" where
  "formatTimestamp startMs endMs = formatDuration startMs @ '' - '' @ formatDuration endMs"

section \<open>The external tools and the Node library\<close>

text \<open>
  The processor shells out to ffprobe and ffmpeg and calls Node's \<open>path\<close> module.  What
  these return is a parameter of the model.

  \<^item> \<open>ffprobe\<close>: the \<open>exec\<close> error message, or output that does not parse, or the three values
    \<open>getVideoInfo\<close> computes from the JSON: \<open>Math.floor(parseFloat(duration) * 1000)\<close>, the
    upper-cased codec name and the resolution string.
  \<^item> \<open>ffmpeg_scene\<close>: the \<open>exec\<close> error message, or the stderr text as one entry per line:
    \<open>None\<close> for a line on which the \<open>pts_time:\<close> pattern does not match, \<open>Some ms\<close> for a
    line on which it does, \<open>ms\<close> being \<open>Math.floor(parseFloat(matches[1]) * 1000)\<close>.  The pattern
    \<open>[\d.]+\<close> admits no sign, so \<open>ms\<close> is a natural number; a match made of dots only,
    which \<open>parseFloat\<close> turns into NaN, is not represented.
  \<^item> \<open>ffmpeg_clip\<close>, \<open>ffmpeg_thumb\<close>: \<open>None\<close> when the command succeeds, the \<open>exec\<close> error
    message otherwise.
\<close>

datatype ffprobe_result = ProbeExecError string | ProbeUnparsable | ProbeInfo int string string

datatype ffmpeg_scan = ScanExecError string | ScanStderr "nat option list"

record env =
  ffprobe :: "string \<Rightarrow> ffprobe_result"
  ffmpeg_scene :: "string \<Rightarrow> rat \<Rightarrow> ffmpeg_scan"
  ffmpeg_clip :: "string \<Rightarrow> string \<Rightarrow> int \<Rightarrow> int \<Rightarrow> string option"
  ffmpeg_thumb :: "string \<Rightarrow> string \<Rightarrow> rat \<Rightarrow> string option"
  path_parse_name :: "string \<Rightarrow> string"
  path_join :: "string \<Rightarrow> string \<Rightarrow> string"
  path_basename :: "string \<Rightarrow> string"
  clipsDir :: string
  thumbnailsDir :: string

section \<open>The video processor (server/videoProcessor.ts)\<close>

definition SCENE_THRESHOLD :: rat where
  "SCENE_THRESHOLD = 4 / 10"

record processOptions =
  po_outputDir :: string
  po_thumbnailDir :: string
  po_threshold :: "rat option"

record clipResult =
  cr_filePath :: string
  cr_thumbnailPath :: string
  cr_startTime :: int
  cr_endTime :: int

record processResults =
  pr_clips :: "clipResult list"
  pr_duration :: int
  pr_format :: string
  pr_resolution :: string

record probeInfo =
  pi_duration :: int
  pi_format :: string
  pi_resolution :: string

text \<open>
  The stage strings handed to \<open>onProgress\<close>, one constructor for each place of
  \<open>processVideo\<close> that makes one; \<open>stage_label\<close> is the string itself.
\<close>

datatype stage =
  AnalyzingVideo
  | DetectingScenes
  | ExtractingClips
  | ExtractingClip nat nat
  | ProcessingComplete

fun stage_label :: "stage \<Rightarrow> string" where
  "stage_label AnalyzingVideo = ''Analyzing video...''"
| "stage_label DetectingScenes = ''Detecting scenes...''"
| "stage_label ExtractingClips = ''Extracting clips...''"
| "stage_label (ExtractingClip k n) =
     ''Extracting clip '' @ string_of_nat k @ '' of '' @ string_of_nat n @ ''...''"
| "stage_label ProcessingComplete = ''Processing complete''"

text \<open>The calls \<open>processVideo\<close> makes on the callbacks of its options, in order.\<close>

datatype callback =
  OnProgress int stage
  | OnComplete processResults
  | OnError string

definition getVideoInfo :: "env \<Rightarrow> string \<Rightarrow> string + probeInfo" where
  "getVideoInfo e filePath =
     (case ffprobe e filePath of
        ProbeExecError m \<Rightarrow> Inl (''Failed to get video info: '' @ m)
      | ProbeUnparsable \<Rightarrow> Inl ''Failed to parse video information''
      | ProbeInfo d f r \<Rightarrow> Inr \<lparr>pi_duration = d, pi_format = f, pi_resolution = r\<rparr>)"

text \<open>
  \<open>detectScenes\<close>: the list starts as \<open>[0]\<close>, every matching line pushes its timestamp, and
  the list is sorted numerically.
\<close>

definition detectScenes :: "env \<Rightarrow> string \<Rightarrow> rat \<Rightarrow> string + int list" where
  "detectScenes e filePath threshold =
     (case ffmpeg_scene e filePath threshold of
        ScanExecError m \<Rightarrow> Inl (''Failed to detect scenes: '' @ m)
      | ScanStderr lines \<Rightarrow> Inr (sort (0 # map int (List.map_filter id lines))))"

definition extractClip :: "env \<Rightarrow> string \<Rightarrow> string \<Rightarrow> int \<Rightarrow> int \<Rightarrow> string option" where
  "extractClip e inputPath outputPath startTime endTime =
     map_option (\<lambda>m. ''Failed to extract clip: '' @ m)
       (ffmpeg_clip e inputPath outputPath startTime endTime)"

definition generateThumbnail :: "env \<Rightarrow> string \<Rightarrow> string \<Rightarrow> rat \<Rightarrow> string option" where
  "generateThumbnail e inputPath outputPath timeMs =
     map_option (\<lambda>m. ''Failed to generate thumbnail: '' @ m)
       (ffmpeg_thumb e inputPath outputPath timeMs)"

text \<open>\<open>i < scenes.length - 1 ? scenes[i + 1] : videoInfo.duration\<close>\<close>

definition nextScene :: "int list \<Rightarrow> int \<Rightarrow> nat \<Rightarrow> int" where
  "nextScene scenes vdur i = (if Suc i < length scenes then scenes ! Suc i else vdur)"

text \<open>
  \<open>30 + Math.floor(((i + 1) / totalScenes) * 60)\<close>, with the quotient and the product
  taken in exact rational arithmetic instead of double precision.
\<close>

definition clipProgress :: "nat \<Rightarrow> nat \<Rightarrow> int" where
  "clipProgress i totalScenes =
     30 + \<lfloor>((of_nat (i + 1) :: rat) / of_nat totalScenes) * 60\<rfloor>"

definition clipFilename :: "env \<Rightarrow> video \<Rightarrow> nat \<Rightarrow> string" where
  "clipFilename e v i = path_parse_name e (v_filename v) @ ''_scene_'' @ string_of_nat (i + 1) @ ''.mp4''"

definition thumbnailFilename :: "env \<Rightarrow> video \<Rightarrow> nat \<Rightarrow> string" where
  "thumbnailFilename e v i = path_parse_name e (v_filename v) @ ''_scene_'' @ string_of_nat (i + 1) @ ''.jpg''"

text \<open>
  The extraction loop of \<open>processVideo\<close> from index \<open>i\<close> on, with the progress calls made
  and the clips pushed so far.  It returns the progress calls, and either the message of the
  error thrown or the final \<open>clipResults\<close>.
\<close>

function extractLoop ::
  "env \<Rightarrow> video \<Rightarrow> processOptions \<Rightarrow> int list \<Rightarrow> int \<Rightarrow> nat \<Rightarrow> callback list \<Rightarrow> clipResult list
     \<Rightarrow> callback list \<times> (string + clipResult list)" where
  "extractLoop e v opts scenes vdur i evs clipResults =
     (if i < length scenes then
        (let startTime = scenes ! i;
             endTime = nextScene scenes vdur i;
             duration = endTime - startTime
         in if duration < 500 then extractLoop e v opts scenes vdur (Suc i) evs clipResults
            else
              (let clipPath = path_join e (po_outputDir opts) (clipFilename e v i);
                   thumbnailPath = path_join e (po_thumbnailDir opts) (thumbnailFilename e v i)
               in case extractClip e (v_filePath v) clipPath startTime endTime of
                    Some err \<Rightarrow> (evs, Inl err)
                  | None \<Rightarrow>
                     (case generateThumbnail e (v_filePath v) thumbnailPath
                             (of_int startTime + min 1000 (of_int duration / 2)) of
                        Some err \<Rightarrow> (evs, Inl err)
                      | None \<Rightarrow>
                          extractLoop e v opts scenes vdur (Suc i)
                            (evs @ [OnProgress (clipProgress i (length scenes))
                                      (ExtractingClip (i + 1) (length scenes))])
                            (clipResults @
                               [\<lparr>cr_filePath = clipPath, cr_thumbnailPath = thumbnailPath,
                                 cr_startTime = startTime, cr_endTime = endTime\<rparr>]))))
      else (evs, Inr clipResults))"
  by pat_completeness auto
termination
  by (relation "measure (\<lambda>(e, v, opts, scenes, vdur, i, evs, clipResults). length scenes - i)") auto

declare extractLoop.simps [simp del]

text \<open>
  \<open>options.threshold || SCENE_THRESHOLD\<close> takes the default also for a threshold of 0.
\<close>

definition threshold_of :: "processOptions \<Rightarrow> rat" where
  "threshold_of opts =
     (case po_threshold opts of
        None \<Rightarrow> SCENE_THRESHOLD
      | Some t \<Rightarrow> if t = 0 then SCENE_THRESHOLD else t)"

text \<open>
  \<open>processVideo\<close>: the callbacks it invokes, in order.  Every error thrown inside the
  \<open>try\<close> ends the run with one \<open>onError\<close> call.
\<close>

definition processVideo :: "env \<Rightarrow> video \<Rightarrow> processOptions \<Rightarrow> callback list" where
  "processVideo e v opts =
     (let threshold = threshold_of opts
      in OnProgress 5 AnalyzingVideo #
         (case getVideoInfo e (v_filePath v) of
            Inl err \<Rightarrow> [OnError err]
          | Inr info \<Rightarrow>
              OnProgress 15 DetectingScenes #
              (case detectScenes e (v_filePath v) threshold of
                 Inl err \<Rightarrow> [OnError err]
               | Inr scenes \<Rightarrow>
                   if length scenes = 0 then [OnError ''No scenes detected in the video'']
                   else
                     OnProgress 30 ExtractingClips #
                     (case extractLoop e v opts scenes (pi_duration info) 0 [] [] of
                        (evs, Inl err) \<Rightarrow> evs @ [OnError err]
                      | (evs, Inr clipResults) \<Rightarrow>
                          evs @
                          [OnProgress 100 ProcessingComplete,
                           OnComplete \<lparr>pr_clips = clipResults, pr_duration = pi_duration info,
                                       pr_format = pi_format info,
                                       pr_resolution = pi_resolution info\<rparr>]))))"

section \<open>In-memory storage (server/storage.ts) and the server state\<close>

text \<open>
  A connected WebSocket client: its \<open>readyState\<close> (1 is OPEN) and the payloads sent to it,
  oldest first.  \<open>ws_watching\<close> is the video the browser behind the connection is showing
  (\<open>uploadedVideoId\<close> of the Home page); the server never reads it.
\<close>

record client =
  ws_readyState :: nat
  ws_sent :: "processingStatus list"
  ws_watching :: "int option"

text \<open>
  The state of the server process: the two maps and counters of \<open>MemStorage\<close> that the
  routes use (\<open>clips\<close> as an association list, a JavaScript \<open>Map\<close> iterating in insertion
  order), the clients of the WebSocket server, and the \<open>processVideo\<close> invocations still in
  flight, each with the video id its callbacks close over and the callbacks it has yet to
  make.
\<close>

record server =
  st_videos :: "int \<rightharpoonup> video"
  st_clips :: "(int \<times> clip) list"
  st_videoId :: int
  st_clipId :: int
  wss_clients :: "client list"
  st_running :: "(int \<times> callback list) list"

definition new_server :: server where
  "new_server = \<lparr>st_videos = Map.empty, st_clips = [], st_videoId = 1, st_clipId = 1,
                  wss_clients = [], st_running = []\<rparr>"

definition createVideo :: "video \<Rightarrow> server \<Rightarrow> video \<times> server" where
  "createVideo insertVideo s =
     (let ident = st_videoId s;
          v = insertVideo\<lparr>v_id := ident\<rparr>
      in (v, s\<lparr>st_videoId := ident + 1, st_videos := (st_videos s)(ident \<mapsto> v)\<rparr>))"

definition getVideo :: "int \<Rightarrow> server \<Rightarrow> video option" where
  "getVideo ident s = st_videos s ident"

text \<open>\<open>updateVideo\<close>: the partial record to merge is given as the update it performs.\<close>

definition updateVideo :: "int \<Rightarrow> (video \<Rightarrow> video) \<Rightarrow> server \<Rightarrow> string + server" where
  "updateVideo ident upd s =
     (case st_videos s ident of
        None \<Rightarrow> Inl (''Video with ID '' @ string_of_int ident @ '' not found'')
      | Some v \<Rightarrow> Inr (s\<lparr>st_videos := (st_videos s)(ident \<mapsto> upd v)\<rparr>))"

definition updateVideoStatus :: "int \<Rightarrow> string \<Rightarrow> server \<Rightarrow> string + server" where
  "updateVideoStatus ident status s = updateVideo ident (\<lambda>v. v\<lparr>v_processingStatus := status\<rparr>) s"

definition getVideoInfo_storage :: "int \<Rightarrow> server \<Rightarrow> string + videoInfo" where
  "getVideoInfo_storage ident s =
     (case st_videos s ident of
        None \<Rightarrow> Inl (''Video with ID '' @ string_of_int ident @ '' not found'')
      | Some v \<Rightarrow>
          Inr \<lparr>vi_id = v_id v, vi_filename = v_filename v,
               vi_originalFilename = v_originalFilename v, vi_fileSize = v_fileSize v,
               vi_duration = v_duration v, vi_format = v_format v,
               vi_resolution = v_resolution v, vi_processingStatus = v_processingStatus v,
               vi_sceneCount = None\<rparr>)"

definition createClip :: "clip \<Rightarrow> server \<Rightarrow> clip \<times> server" where
  "createClip insertClip s =
     (let ident = st_clipId s;
          c = insertClip\<lparr>c_id := ident\<rparr>
      in (c, s\<lparr>st_clipId := ident + 1, st_clips := AList.update ident c (st_clips s)\<rparr>))"


section \<open>The routes (server/routes.ts)\<close>

text \<open>\<open>JSON.stringify({ videoId, ...status })\<close>: a \<open>videoId\<close> of the status itself would win.\<close>

definition payload :: "int \<Rightarrow> processingStatus \<Rightarrow> processingStatus" where
  "payload videoId status =
     status\<lparr>ps_videoId := (case ps_videoId status of None \<Rightarrow> Some videoId | Some w \<Rightarrow> Some w)\<rparr>"

definition broadcastStatus :: "int \<Rightarrow> processingStatus \<Rightarrow> server \<Rightarrow> server" where
  "broadcastStatus videoId status s =
     s\<lparr>wss_clients :=
         map (\<lambda>c. if ws_readyState c = 1
                  then c\<lparr>ws_sent := ws_sent c @ [payload videoId status]\<rparr>
                  else c)
             (wss_clients s)\<rparr>"

definition clipInfo_of :: "clip \<Rightarrow> clipInfo" where
  "clipInfo_of c =
     \<lparr>ci_id = c_id c, ci_videoId = c_videoId c, ci_sceneIndex = c_sceneIndex c,
      ci_startTime = c_startTime c, ci_endTime = c_endTime c, ci_duration = c_duration c,
      ci_timestamp = formatTimestamp (c_startTime c) (c_endTime c),
      ci_url = ''/api/clips/'' @ string_of_int (c_id c) @ ''/stream'',
      ci_thumbnailUrl = ''/api/clips/'' @ string_of_int (c_id c) @ ''/thumbnail''\<rparr>"

definition onProgress :: "int \<Rightarrow> int \<Rightarrow> stage \<Rightarrow> server \<Rightarrow> server" where
  "onProgress videoId progress stg s =
     broadcastStatus videoId
       \<lparr>ps_videoId = None, ps_status = ''processing'', ps_progress = Some progress,
        ps_stage = Some (stage_label stg), ps_error = None, ps_clips = None,
        ps_videoInfo = None\<rparr> s"

text \<open>The loop of \<open>onComplete\<close> that stores the clips, from index \<open>i\<close> on.\<close>

function saveClips ::
  "env \<Rightarrow> int \<Rightarrow> clipResult list \<Rightarrow> nat \<Rightarrow> server \<Rightarrow> clipInfo list \<Rightarrow> server \<times> clipInfo list" where
  "saveClips e videoId results_clips i s clips =
     (if i < length results_clips then
        (let clip = results_clips ! i;
             clipData = \<lparr>c_id = 0, c_videoId = videoId,
                         c_filename = path_basename e (cr_filePath clip),
                         c_filePath = cr_filePath clip,
                         c_thumbnailPath = cr_thumbnailPath clip,
                         c_startTime = cr_startTime clip, c_endTime = cr_endTime clip,
                         c_duration = cr_endTime clip - cr_startTime clip,
                         c_sceneIndex = int i\<rparr>;
             (savedClip, s') = createClip clipData s
         in saveClips e videoId results_clips (Suc i) s' (clips @ [clipInfo_of savedClip]))
      else (s, clips))"
  by pat_completeness auto
termination
  by (relation "measure (\<lambda>(e, videoId, results_clips, i, s, clips). length results_clips - i)") auto

declare saveClips.simps [simp del]

definition errorStatus :: "string \<Rightarrow> processingStatus" where
  "errorStatus msg =
     \<lparr>ps_videoId = None, ps_status = ''error'', ps_progress = None, ps_stage = None,
      ps_error = Some msg, ps_clips = None, ps_videoInfo = None\<rparr>"

text \<open>
  \<open>onComplete\<close> up to its broadcast: the state after the storage calls and the status it
  broadcasts.  An error thrown in the \<open>try\<close> (the video is missing) leads to the \<open>catch\<close>;
  if \<open>updateVideoStatus\<close> throws there too, nothing is broadcast.
\<close>

definition onComplete_status ::
  "env \<Rightarrow> int \<Rightarrow> processResults \<Rightarrow> server \<Rightarrow> server \<times> processingStatus option" where
  "onComplete_status e videoId results s =
     (let (s1, clips) = saveClips e videoId (pr_clips results) 0 s [];
          caught = (\<lambda>s'. case updateVideoStatus videoId ''error'' s' of
                            Inl _ \<Rightarrow> (s', None)
                          | Inr s'' \<Rightarrow> (s'', Some (errorStatus ''Failed to save clip data'')))
      in case updateVideo videoId
                (\<lambda>v. v\<lparr>v_duration := Some (formatDuration (pr_duration results)),
                       v_format := Some (pr_format results),
                       v_resolution := Some (pr_resolution results),
                       v_processingStatus := ''completed''\<rparr>) s1 of
           Inl _ \<Rightarrow> caught s1
         | Inr s2 \<Rightarrow>
             (case getVideoInfo_storage videoId s2 of
                Inl _ \<Rightarrow> caught s2
              | Inr videoInfo \<Rightarrow>
                  (s2, Some \<lparr>ps_videoId = None, ps_status = ''completed'',
                             ps_progress = Some 100, ps_stage = None, ps_error = None,
                             ps_clips = Some clips,
                             ps_videoInfo = Some (videoInfo\<lparr>vi_sceneCount := Some (length clips)\<rparr>)\<rparr>)))"

definition onComplete :: "env \<Rightarrow> int \<Rightarrow> processResults \<Rightarrow> server \<Rightarrow> server" where
  "onComplete e videoId results s =
     (case onComplete_status e videoId results s of
        (s', None) \<Rightarrow> s'
      | (s', Some status) \<Rightarrow> broadcastStatus videoId status s')"

definition onError :: "int \<Rightarrow> string \<Rightarrow> server \<Rightarrow> server" where
  "onError videoId msg s =
     (case updateVideoStatus videoId ''error'' s of
        Inl _ \<Rightarrow> s
      | Inr s' \<Rightarrow> broadcastStatus videoId (errorStatus msg) s')"

text \<open>One call of \<open>processVideo\<close> on the options object that the process route builds.\<close>

fun callback_apply :: "env \<Rightarrow> int \<Rightarrow> callback \<Rightarrow> server \<Rightarrow> server" where
  "callback_apply e videoId (OnProgress progress stg) s = onProgress videoId progress stg s"
| "callback_apply e videoId (OnComplete results) s = onComplete e videoId results s"
| "callback_apply e videoId (OnError msg) s = onError videoId msg s"

datatype response =
  Message nat string
  | UploadJson int string string
  | StatusJson string int "clipInfo list" videoInfo

record uploadedFile =
  uf_filename :: string
  uf_originalname :: string
  uf_path :: string
  uf_size :: int

text \<open>\<open>POST /api/videos/upload\<close>\<close>

definition upload_route :: "uploadedFile option \<Rightarrow> server \<Rightarrow> response \<times> server" where
  "upload_route file s =
     (case file of
        None \<Rightarrow> (Message 400 ''No file uploaded'', s)
      | Some f \<Rightarrow>
          (let (newVideo, s') =
                 createVideo \<lparr>v_id = 0, v_filename = uf_filename f,
                              v_originalFilename = uf_originalname f, v_filePath = uf_path f,
                              v_fileSize = uf_size f, v_duration = None, v_format = None,
                              v_resolution = None, v_processingStatus = ''pending''\<rparr> s
           in (UploadJson (v_id newVideo) (v_filename newVideo) (v_originalFilename newVideo), s')))"

text \<open>
  \<open>POST /api/videos/:id/process\<close>; the parameter is \<open>parseInt(req.params.id, 10)\<close>, \<open>None\<close>
  for NaN.  \<open>processVideo\<close> is not awaited: it runs up to its first \<open>await\<close>, that is through
  its first \<open>onProgress\<close> call, and the rest of it stays in flight while the response is sent.
\<close>

definition process_route :: "env \<Rightarrow> int option \<Rightarrow> server \<Rightarrow> response \<times> server" where
  "process_route e idParam s =
     (case idParam of
        None \<Rightarrow> (Message 400 ''Invalid video ID'', s)
      | Some videoId \<Rightarrow>
          (case getVideo videoId s of
             None \<Rightarrow> (Message 404 ''Video not found'', s)
           | Some v \<Rightarrow>
               (case updateVideoStatus videoId ''processing'' s of
                  Inl _ \<Rightarrow> (Message 500 ''Error starting processing'', s)
                | Inr s1 \<Rightarrow>
                    (case processVideo e v \<lparr>po_outputDir = clipsDir e,
                                             po_thumbnailDir = thumbnailsDir e,
                                             po_threshold = None\<rparr> of
                       [] \<Rightarrow> (Message 200 ''Processing started'', s1)
                     | cb # rest \<Rightarrow>
                         (Message 200 ''Processing started'',
                          (callback_apply e videoId cb s1)
                            \<lparr>st_running := st_running s1 @ [(videoId, rest)]\<rparr>)))))"

text \<open>
  The event loop resuming the \<open>k\<close>-th invocation in flight: its next callback is made, and
  the invocation is over once it has made its last one.
\<close>

definition run_step :: "env \<Rightarrow> nat \<Rightarrow> server \<Rightarrow> server" where
  "run_step e k s =
     (if k < length (st_running s) then
        (case st_running s ! k of
           (videoId, []) \<Rightarrow> s\<lparr>st_running := take k (st_running s) @ drop (Suc k) (st_running s)\<rparr>
         | (videoId, cb # rest) \<Rightarrow>
             (callback_apply e videoId cb s)
               \<lparr>st_running :=
                  (if rest = [] then take k (st_running s) @ drop (Suc k) (st_running s)
                   else (st_running s)[k := (videoId, rest)])\<rparr>)
      else s)"


section \<open>Concrete runs\<close>

text \<open>
  A source of 10000 ms on which the scan reports cuts at 2000, 2300 and 7000 ms, between
  lines of other ffmpeg output; every extraction succeeds.
\<close>

definition scenario_env :: env where
  "scenario_env =
     \<lparr>ffprobe = (\<lambda>p. ProbeInfo 10000 ''H264'' ''1920 x 1080''),
      ffmpeg_scene = (\<lambda>p t. ScanStderr [None, Some 2000, Some 2300, None, Some 7000]),
      ffmpeg_clip = (\<lambda>i outp a b. None),
      ffmpeg_thumb = (\<lambda>i outp t. None),
      path_parse_name = takeWhile (\<lambda>c. c \<noteq> CHR ''.''),
      path_join = (\<lambda>a b. a @ ''/'' @ b),
      path_basename = (\<lambda>p. rev (takeWhile (\<lambda>c. c \<noteq> CHR ''/'') (rev p))),
      clipsDir = ''uploads/clips'',
      thumbnailsDir = ''uploads/thumbnails''\<rparr>"

text \<open>The same source with a scan that reports no cut at all.\<close>

definition still_env :: env where
  "still_env = scenario_env\<lparr>ffmpeg_scene := (\<lambda>p t. ScanStderr [None, None])\<rparr>"

text \<open>A scan on which two reported frames fall into the same millisecond.\<close>

definition twin_env :: env where
  "twin_env = scenario_env\<lparr>ffmpeg_scene := (\<lambda>p t. ScanStderr [Some 2000, Some 2000])\<rparr>"

definition scenario_video :: video where
  "scenario_video =
     \<lparr>v_id = 1, v_filename = ''a.mp4'', v_originalFilename = ''holiday.mp4'',
      v_filePath = ''uploads/a.mp4'', v_fileSize = 4096, v_duration = None, v_format = None,
      v_resolution = None, v_processingStatus = ''pending''\<rparr>"

definition scenario_options :: processOptions where
  "scenario_options =
     \<lparr>po_outputDir = ''uploads/clips'', po_thumbnailDir = ''uploads/thumbnails'',
      po_threshold = None\<rparr>"

text \<open>
  A server with one open client, after the upload of the file above
  (\<open>uploaded\<close>), after the process route has been called on it (\<open>started\<close>), and after the run
  has gone on for two more callbacks (\<open>extracting\<close>).
\<close>

definition uploaded :: server where
  "uploaded =
     snd (upload_route
            (Some \<lparr>uf_filename = ''a.mp4'', uf_originalname = ''holiday.mp4'',
                   uf_path = ''uploads/a.mp4'', uf_size = 4096\<rparr>)
            (new_server\<lparr>wss_clients :=
               [\<lparr>ws_readyState = 1, ws_sent = [], ws_watching = Some 1\<rparr>]\<rparr>))"

definition started :: server where
  "started = snd (process_route scenario_env (Some 1) uploaded)"

definition extracting :: server where
  "extracting = run_step scenario_env 0 (run_step scenario_env 0 started)"

text \<open>What the run of the scenario hands to \<open>onComplete\<close>, and the status then broadcast.\<close>

definition scenario_results :: processResults where
  "scenario_results =
     \<lparr>pr_clips =
        [\<lparr>cr_filePath = ''uploads/clips/a_scene_1.mp4'',
          cr_thumbnailPath = ''uploads/thumbnails/a_scene_1.jpg'',
          cr_startTime = 0, cr_endTime = 2000\<rparr>,
         \<lparr>cr_filePath = ''uploads/clips/a_scene_3.mp4'',
          cr_thumbnailPath = ''uploads/thumbnails/a_scene_3.jpg'',
          cr_startTime = 2300, cr_endTime = 7000\<rparr>,
         \<lparr>cr_filePath = ''uploads/clips/a_scene_4.mp4'',
          cr_thumbnailPath = ''uploads/thumbnails/a_scene_4.jpg'',
          cr_startTime = 7000, cr_endTime = 10000\<rparr>],
      pr_duration = 10000, pr_format = ''H264'', pr_resolution = ''1920 x 1080''\<rparr>"

definition scenario_completed :: processingStatus where
  "scenario_completed =
     \<lparr>ps_videoId = None, ps_status = ''completed'', ps_progress = Some 100, ps_stage = None,
      ps_error = None,
      ps_clips = Some
        [\<lparr>ci_id = 1, ci_videoId = 1, ci_sceneIndex = 0, ci_startTime = 0, ci_endTime = 2000,
          ci_duration = 2000, ci_timestamp = ''00:00 - 00:02'', ci_url = ''/api/clips/1/stream'',
          ci_thumbnailUrl = ''/api/clips/1/thumbnail''\<rparr>,
         \<lparr>ci_id = 2, ci_videoId = 1, ci_sceneIndex = 1, ci_startTime = 2300, ci_endTime = 7000,
          ci_duration = 4700, ci_timestamp = ''00:02 - 00:07'', ci_url = ''/api/clips/2/stream'',
          ci_thumbnailUrl = ''/api/clips/2/thumbnail''\<rparr>,
         \<lparr>ci_id = 3, ci_videoId = 1, ci_sceneIndex = 2, ci_startTime = 7000, ci_endTime = 10000,
          ci_duration = 3000, ci_timestamp = ''00:07 - 00:10'', ci_url = ''/api/clips/3/stream'',
          ci_thumbnailUrl = ''/api/clips/3/thumbnail''\<rparr>],
      ps_videoInfo = Some
        \<lparr>vi_id = 1, vi_filename = ''a.mp4'', vi_originalFilename = ''holiday.mp4'',
         vi_fileSize = 4096, vi_duration = Some ''00:10'', vi_format = Some ''H264'',
         vi_resolution = Some ''1920 x 1080'', vi_processingStatus = ''completed'',
         vi_sceneCount = Some 3\<rparr>\<rparr>"

text \<open>
  A server with two connections: an open one whose page shows video 2 and a closed one
  whose page shows video 1.
\<close>

definition two_clients :: server where
  "two_clients =
     new_server\<lparr>wss_clients :=
       [\<lparr>ws_readyState = 1, ws_sent = [], ws_watching = Some 2\<rparr>,
        \<lparr>ws_readyState = 3, ws_sent = [], ws_watching = Some 1\<rparr>]\<rparr>"

section \<open>Reading a run\<close>

text \<open>The \<open>onProgress\<close> calls among the callbacks of a run, and whether it completed.\<close>

fun progress_of :: "callback \<Rightarrow> (int \<times> stage) option" where
  "progress_of (OnProgress p stg) = Some (p, stg)"
| "progress_of (OnComplete results) = None"
| "progress_of (OnError msg) = None"

definition progress_calls :: "callback list \<Rightarrow> (int \<times> stage) list" where
  "progress_calls cbs = List.map_filter progress_of cbs"

fun is_complete :: "callback \<Rightarrow> bool" where
  "is_complete (OnComplete results) = True"
| "is_complete (OnProgress p stg) = False"
| "is_complete (OnError msg) = False"

definition completed :: "callback list \<Rightarrow> bool" where
  "completed cbs = list_ex is_complete cbs"

text \<open>The progress calls made once per extracted clip, inside the loop.\<close>

fun per_candidate :: "int \<times> stage \<Rightarrow> bool" where
  "per_candidate (p, ExtractingClip k n) = True"
| "per_candidate (p, stg) = False"

text \<open>
  Candidate \<open>i\<close> is the range from boundary \<open>i\<close> to the next one (the probed duration after
  the last); the loop keeps it when it lasts 500 ms or more.
\<close>

definition candidateDuration :: "int list \<Rightarrow> int \<Rightarrow> nat \<Rightarrow> int" where
  "candidateDuration scenes vdur i = nextScene scenes vdur i - scenes ! i"

definition retained :: "int list \<Rightarrow> int \<Rightarrow> nat \<Rightarrow> bool" where
  "retained scenes vdur i = (500 \<le> candidateDuration scenes vdur i)"

definition retainedIndices :: "int list \<Rightarrow> int \<Rightarrow> nat list" where
  "retainedIndices scenes vdur = filter (retained scenes vdur) [0..<length scenes]"

definition discardedIndices :: "int list \<Rightarrow> int \<Rightarrow> nat list" where
  "discardedIndices scenes vdur = filter (\<lambda>i. \<not> retained scenes vdur i) [0..<length scenes]"

text \<open>
  The phase in which a progress call is made: 1 for Probing, 2 for Detecting, 3 for
  Extracting, 4 for Completed.
\<close>

fun phase_rank :: "stage \<Rightarrow> nat" where
  "phase_rank AnalyzingVideo = 1"
| "phase_rank DetectingScenes = 2"
| "phase_rank ExtractingClips = 3"
| "phase_rank (ExtractingClip k n) = 3"
| "phase_rank ProcessingComplete = 4"

text \<open>
  The progress after the \<open>k\<close>-th of \<open>n\<close> candidates as the specification words it: the 70
  points above 30 shared out evenly.
\<close>

definition spec_clipProgress :: "nat \<Rightarrow> nat \<Rightarrow> rat" where
  "spec_clipProgress k n = 30 + (of_nat k / of_nat n) * 70"

text \<open>What one pass of the loop body pushes and reports for a candidate it keeps.\<close>

definition clipAt :: "env \<Rightarrow> video \<Rightarrow> processOptions \<Rightarrow> int list \<Rightarrow> int \<Rightarrow> nat \<Rightarrow> clipResult" where
  "clipAt e v opts scenes vdur i =
     \<lparr>cr_filePath = path_join e (po_outputDir opts) (clipFilename e v i),
      cr_thumbnailPath = path_join e (po_thumbnailDir opts) (thumbnailFilename e v i),
      cr_startTime = scenes ! i, cr_endTime = nextScene scenes vdur i\<rparr>"

definition clipCall :: "nat \<Rightarrow> nat \<Rightarrow> callback" where
  "clipCall n i = OnProgress (clipProgress i n) (ExtractingClip (i + 1) n)"

section \<open>Properties of the processor\<close>

subsection \<open>The progress formula\<close>

lemma clipProgress_div: "clipProgress i n = 30 + (int i + 1) * 60 div int n"
proof -
  have "((of_nat (i + 1) :: rat) / of_nat n) * 60 = of_int ((int i + 1) * 60) / of_int (int n)"
    by simp
  then show ?thesis
    unfolding clipProgress_def by (simp only: floor_divide_of_int_eq)
qed

lemma clipProgress_bounds:
  assumes "i < n"
  shows "30 \<le> clipProgress i n" and "clipProgress i n \<le> 90"
proof -
  have n: "0 < int n" using assms by simp
  have "0 \<le> (int i + 1) * 60 div int n"
    using n by (simp add: pos_imp_zdiv_nonneg_iff)
  then show "30 \<le> clipProgress i n" by (simp add: clipProgress_div)
  have "(int i + 1) * 60 \<le> 60 * int n" using assms by simp
  then have "(int i + 1) * 60 div int n \<le> 60 * int n div int n"
    using n zdiv_mono1 by blast
  then show "clipProgress i n \<le> 90" using n by (simp add: clipProgress_div)
qed

lemma clipProgress_mono:
  assumes "i \<le> j"
  shows "clipProgress i n \<le> clipProgress j n"
proof (cases "n = 0")
  case True then show ?thesis by (simp add: clipProgress_div)
next
  case False
  then have n: "0 < int n" by simp
  have "(int i + 1) * 60 \<le> (int j + 1) * 60" using assms by simp
  then show ?thesis using n by (simp add: clipProgress_div zdiv_mono1)
qed

subsection \<open>The extraction loop\<close>

text \<open>
  When the loop ends without an error, it has reported and pushed exactly the candidates
  it keeps, in order.
\<close>

lemma extractLoop_done:
  "extractLoop e v opts scenes vdur i evs crs = (evs', Inr crs') \<Longrightarrow>
     evs' = evs @ map (clipCall (length scenes)) (filter (retained scenes vdur) [i..<length scenes]) \<and>
     crs' = crs @ map (clipAt e v opts scenes vdur) (filter (retained scenes vdur) [i..<length scenes])"
proof (induction e v opts scenes vdur i evs crs rule: extractLoop.induct)
  case (1 e v opts scenes vdur i evs crs)
  show ?case
  proof (cases "i < length scenes")
    case False
    with "1.prems" show ?thesis by (simp add: extractLoop.simps)
  next
    case True
    then have upt: "[i..<length scenes] = i # [Suc i..<length scenes]"
      by (simp add: upt_conv_Cons)
    show ?thesis
    proof (cases "retained scenes vdur i")
      case False
      then have short: "nextScene scenes vdur i - scenes ! i < 500"
        by (simp add: retained_def candidateDuration_def)
      with True "1.prems" have
        "extractLoop e v opts scenes vdur (Suc i) evs crs = (evs', Inr crs')"
        by (simp add: extractLoop.simps [of e v opts scenes vdur i])
      with "1.IH"(1) [OF True refl refl refl short] False upt show ?thesis by simp
    next
      case keep: True
      then have long: "\<not> nextScene scenes vdur i - scenes ! i < 500"
        by (simp add: retained_def candidateDuration_def)
      from True long "1.prems" obtain
        c: "extractClip e (v_filePath v)
              (path_join e (po_outputDir opts) (clipFilename e v i))
              (scenes ! i) (nextScene scenes vdur i) = None"
        and t: "generateThumbnail e (v_filePath v)
              (path_join e (po_thumbnailDir opts) (thumbnailFilename e v i))
              (of_int (scenes ! i) + min 1000 (of_int (nextScene scenes vdur i - scenes ! i) / 2)) = None"
        and rec: "extractLoop e v opts scenes vdur (Suc i)
              (evs @ [clipCall (length scenes) i]) (crs @ [clipAt e v opts scenes vdur i])
            = (evs', Inr crs')"
        by (simp add: extractLoop.simps [of e v opts scenes vdur i] Let_def clipCall_def clipAt_def
                 split: option.splits)
      from "1.IH"(2) [OF True refl refl refl long refl refl c t]
           rec [unfolded clipCall_def clipAt_def]
      show ?thesis using keep upt by (simp add: clipCall_def clipAt_def)
    qed
  qed
qed


lemma extractLoop_calls:
  "i \<le> length scenes \<Longrightarrow>
   \<exists>m. i \<le> m \<and> m \<le> length scenes \<and>
       fst (extractLoop e v opts scenes vdur i evs crs)
         = evs @ map (clipCall (length scenes)) (filter (retained scenes vdur) [i..<m]) \<and>
       (\<forall>crs'. snd (extractLoop e v opts scenes vdur i evs crs) = Inr crs' \<longrightarrow> m = length scenes)"
proof (induction e v opts scenes vdur i evs crs rule: extractLoop.induct)
  case (1 e v opts scenes vdur i evs crs)
  show ?case
  proof (cases "i < length scenes")
    case False
    with "1.prems" have eq: "i = length scenes" by simp
    have "extractLoop e v opts scenes vdur i evs crs = (evs, Inr crs)"
      using False by (simp add: extractLoop.simps [of e v opts scenes vdur i])
    then show ?thesis using eq by (intro exI [of _ i]) simp
  next
    case True
    then have le: "Suc i \<le> length scenes" by simp
    show ?thesis
    proof (cases "retained scenes vdur i")
      case False
      then have short: "nextScene scenes vdur i - scenes ! i < 500"
        by (simp add: retained_def candidateDuration_def)
      from "1.IH"(1) [OF True refl refl refl short le] obtain m where
        m: "Suc i \<le> m" "m \<le> length scenes"
          "fst (extractLoop e v opts scenes vdur (Suc i) evs crs)
             = evs @ map (clipCall (length scenes)) (filter (retained scenes vdur) [Suc i..<m])"
          "\<forall>crs'. snd (extractLoop e v opts scenes vdur (Suc i) evs crs) = Inr crs' \<longrightarrow> m = length scenes"
        by blast
      have step: "extractLoop e v opts scenes vdur i evs crs
                    = extractLoop e v opts scenes vdur (Suc i) evs crs"
        using True short by (simp add: extractLoop.simps [of e v opts scenes vdur i])
      have "[i..<m] = i # [Suc i..<m]" using m(1) by (simp add: upt_conv_Cons)
      with m False step show ?thesis by (intro exI [of _ m]) simp
    next
      case keep: True
      then have long: "\<not> nextScene scenes vdur i - scenes ! i < 500"
        by (simp add: retained_def candidateDuration_def)
      let ?c = "extractClip e (v_filePath v)
              (path_join e (po_outputDir opts) (clipFilename e v i))
              (scenes ! i) (nextScene scenes vdur i)"
      let ?t = "generateThumbnail e (v_filePath v)
              (path_join e (po_thumbnailDir opts) (thumbnailFilename e v i))
              (of_int (scenes ! i) + min 1000 (of_int (nextScene scenes vdur i - scenes ! i) / 2))"
      show ?thesis
      proof (cases "?c = None \<and> ?t = None")
        case False
        then have "\<exists>err. extractLoop e v opts scenes vdur i evs crs = (evs, Inl err)"
          using True long
          by (auto simp add: extractLoop.simps [of e v opts scenes vdur i] Let_def
                   split: option.splits)
        then show ?thesis using True by (intro exI [of _ i]) auto
      next
        case ok: True
        then have c: "?c = None" and t: "?t = None" by simp_all
        from "1.IH"(2) [OF True refl refl refl long refl refl c t le] obtain m where
          m: "Suc i \<le> m" "m \<le> length scenes"
            "fst (extractLoop e v opts scenes vdur (Suc i)
                    (evs @ [OnProgress (clipProgress i (length scenes))
                                      (ExtractingClip (i + 1) (length scenes))])
                    (crs @ [\<lparr>cr_filePath = path_join e (po_outputDir opts) (clipFilename e v i),
                             cr_thumbnailPath = path_join e (po_thumbnailDir opts) (thumbnailFilename e v i),
                             cr_startTime = scenes ! i, cr_endTime = nextScene scenes vdur i\<rparr>]))
               = (evs @ [OnProgress (clipProgress i (length scenes))
                                      (ExtractingClip (i + 1) (length scenes))])
                 @ map (clipCall (length scenes)) (filter (retained scenes vdur) [Suc i..<m])"
            "\<forall>crs'. snd (extractLoop e v opts scenes vdur (Suc i)
                    (evs @ [OnProgress (clipProgress i (length scenes))
                                      (ExtractingClip (i + 1) (length scenes))])
                    (crs @ [\<lparr>cr_filePath = path_join e (po_outputDir opts) (clipFilename e v i),
                             cr_thumbnailPath = path_join e (po_thumbnailDir opts) (thumbnailFilename e v i),
                             cr_startTime = scenes ! i, cr_endTime = nextScene scenes vdur i\<rparr>]))
                  = Inr crs' \<longrightarrow> m = length scenes"
          by blast
        have step: "extractLoop e v opts scenes vdur i evs crs
             = extractLoop e v opts scenes vdur (Suc i)
                    (evs @ [OnProgress (clipProgress i (length scenes))
                                      (ExtractingClip (i + 1) (length scenes))])
                    (crs @ [\<lparr>cr_filePath = path_join e (po_outputDir opts) (clipFilename e v i),
                             cr_thumbnailPath = path_join e (po_thumbnailDir opts) (thumbnailFilename e v i),
                             cr_startTime = scenes ! i, cr_endTime = nextScene scenes vdur i\<rparr>])"
          using True long c t
          by (simp add: extractLoop.simps [of e v opts scenes vdur i] Let_def)
        have "[i..<m] = i # [Suc i..<m]" using m(1) by (simp add: upt_conv_Cons)
        with m keep step show ?thesis
          by (intro exI [of _ m]) (simp add: clipCall_def)
      qed
    qed
  qed
qed

subsection \<open>Reading off the progress calls\<close>

lemma progress_calls_Nil [simp]: "progress_calls [] = []"
  by (simp add: progress_calls_def map_filter_simps)

lemma progress_calls_Cons [simp]:
  "progress_calls (cb # cbs) =
     (case progress_of cb of None \<Rightarrow> progress_calls cbs | Some x \<Rightarrow> x # progress_calls cbs)"
  unfolding progress_calls_def by (simp add: map_filter_simps)

lemma progress_calls_append [simp]:
  "progress_calls (xs @ ys) = progress_calls xs @ progress_calls ys"
  by (simp add: progress_calls_def map_filter_def)

lemma progress_calls_clipCall [simp]:
  "progress_calls (map (clipCall n) js) = map (\<lambda>i. (clipProgress i n, ExtractingClip (i + 1) n)) js"
  by (induction js) (simp_all add: clipCall_def)

lemma completed_Nil [simp]: "completed [] = False"
  by (simp add: completed_def)

lemma completed_Cons [simp]: "completed (cb # cbs) = (is_complete cb \<or> completed cbs)"
  by (simp add: completed_def)

lemma completed_append [simp]: "completed (xs @ ys) = (completed xs \<or> completed ys)"
  by (auto simp add: completed_def list_ex_iff)

lemma completed_clipCall [simp]: "completed (map (clipCall n) js) = False"
  by (induction js) (simp_all add: clipCall_def)

subsection \<open>The shape of a run\<close>

text \<open>The list \<open>detectScenes\<close> resolves with always holds the initial 0.\<close>

lemma detectScenes_nonempty: "detectScenes e p t = Inr scenes \<Longrightarrow> scenes \<noteq> []"
  by (auto simp add: detectScenes_def split: ffmpeg_scan.splits)

lemma processVideo_unfold:
  assumes "getVideoInfo e (v_filePath v) = Inr info"
    and "detectScenes e (v_filePath v) (threshold_of opts) = Inr scenes"
  shows "processVideo e v opts =
     OnProgress 5 AnalyzingVideo # OnProgress 15 DetectingScenes # OnProgress 30 ExtractingClips #
     (case extractLoop e v opts scenes (pi_duration info) 0 [] [] of
        (evs, Inl err) \<Rightarrow> evs @ [OnError err]
      | (evs, Inr clipResults) \<Rightarrow>
          evs @ [OnProgress 100 ProcessingComplete,
                 OnComplete \<lparr>pr_clips = clipResults, pr_duration = pi_duration info,
                             pr_format = pi_format info, pr_resolution = pi_resolution info\<rparr>])"
  using assms detectScenes_nonempty [OF assms(2)] by (simp add: processVideo_def)

lemma processVideo_shape:
  assumes "getVideoInfo e (v_filePath v) = Inr info"
    and "detectScenes e (v_filePath v) (threshold_of opts) = Inr scenes"
  shows "\<exists>m. m \<le> length scenes \<and>
     progress_calls (processVideo e v opts) =
       [(5, AnalyzingVideo), (15, DetectingScenes), (30, ExtractingClips)]
       @ map (\<lambda>i. (clipProgress i (length scenes), ExtractingClip (i + 1) (length scenes)))
           (filter (retained scenes (pi_duration info)) [0..<m])
       @ (if completed (processVideo e v opts) then [(100, ProcessingComplete)] else []) \<and>
     (completed (processVideo e v opts) \<longrightarrow> m = length scenes)"
proof -
  obtain evs r where loop: "extractLoop e v opts scenes (pi_duration info) 0 [] [] = (evs, r)"
    by (cases "extractLoop e v opts scenes (pi_duration info) 0 [] []")
  from extractLoop_calls [of 0 scenes e v opts "pi_duration info" "[]" "[]"] loop
  obtain m where m: "m \<le> length scenes"
      "evs = map (clipCall (length scenes)) (filter (retained scenes (pi_duration info)) [0..<m])"
      "\<forall>crs'. r = Inr crs' \<longrightarrow> m = length scenes"
    by auto
  show ?thesis
  proof (cases r)
    case (Inl err)
    with loop m show ?thesis
      by (intro exI [of _ m]) (simp add: processVideo_unfold [OF assms])
  next
    case (Inr crs)
    with loop m show ?thesis
      by (intro exI [of _ m]) (simp add: processVideo_unfold [OF assms])
  qed
qed

lemma processVideo_completed:
  assumes "getVideoInfo e (v_filePath v) = Inr info"
    and "detectScenes e (v_filePath v) (threshold_of opts) = Inr scenes"
    and "completed (processVideo e v opts)"
  shows "processVideo e v opts =
     [OnProgress 5 AnalyzingVideo, OnProgress 15 DetectingScenes, OnProgress 30 ExtractingClips]
     @ map (clipCall (length scenes)) (retainedIndices scenes (pi_duration info))
     @ [OnProgress 100 ProcessingComplete,
        OnComplete \<lparr>pr_clips = map (clipAt e v opts scenes (pi_duration info))
                                  (retainedIndices scenes (pi_duration info)),
                    pr_duration = pi_duration info,
                    pr_format = pi_format info, pr_resolution = pi_resolution info\<rparr>]"
proof -
  obtain evs r where loop: "extractLoop e v opts scenes (pi_duration info) 0 [] [] = (evs, r)"
    by (cases "extractLoop e v opts scenes (pi_duration info) 0 [] []")
  show ?thesis
  proof (cases r)
    case (Inl err)
    from extractLoop_calls [of 0 scenes e v opts "pi_duration info" "[]" "[]"] loop
    obtain m where "evs = map (clipCall (length scenes)) (filter (retained scenes (pi_duration info)) [0..<m])"
      by auto
    with Inl loop assms(3) show ?thesis
      by (simp add: processVideo_unfold [OF assms(1,2)])
  next
    case (Inr crs)
    with loop extractLoop_done [of e v opts scenes "pi_duration info" 0 "[]" "[]" evs crs]
    show ?thesis
      by (simp add: processVideo_unfold [OF assms(1,2)] retainedIndices_def)
  qed
qed

subsection \<open>The concrete runs, evaluated\<close>

lemma scenario_probe:
  "getVideoInfo scenario_env (v_filePath scenario_video)
     = Inr \<lparr>pi_duration = 10000, pi_format = ''H264'', pi_resolution = ''1920 x 1080''\<rparr>"
  by (simp add: getVideoInfo_def scenario_env_def)

lemma scenario_scenes:
  "detectScenes scenario_env (v_filePath scenario_video) (threshold_of scenario_options)
     = Inr [0, 2000, 2300, 7000]"
  by (simp add: detectScenes_def scenario_env_def map_filter_simps)

lemma scenario_retained:
  "retainedIndices [0, 2000, 2300, 7000] 10000 = [0, 2, 3]"
  by (simp add: retainedIndices_def retained_def candidateDuration_def nextScene_def upt_rec)

lemma scenario_run:
  "processVideo scenario_env scenario_video scenario_options =
     [OnProgress 5 AnalyzingVideo, OnProgress 15 DetectingScenes, OnProgress 30 ExtractingClips,
      OnProgress 45 (ExtractingClip 1 4), OnProgress 75 (ExtractingClip 3 4),
      OnProgress 90 (ExtractingClip 4 4), OnProgress 100 ProcessingComplete,
      OnComplete
        \<lparr>pr_clips =
           [\<lparr>cr_filePath = ''uploads/clips/a_scene_1.mp4'',
             cr_thumbnailPath = ''uploads/thumbnails/a_scene_1.jpg'',
             cr_startTime = 0, cr_endTime = 2000\<rparr>,
            \<lparr>cr_filePath = ''uploads/clips/a_scene_3.mp4'',
             cr_thumbnailPath = ''uploads/thumbnails/a_scene_3.jpg'',
             cr_startTime = 2300, cr_endTime = 7000\<rparr>,
            \<lparr>cr_filePath = ''uploads/clips/a_scene_4.mp4'',
             cr_thumbnailPath = ''uploads/thumbnails/a_scene_4.jpg'',
             cr_startTime = 7000, cr_endTime = 10000\<rparr>],
         pr_duration = 10000, pr_format = ''H264'', pr_resolution = ''1920 x 1080''\<rparr>]"
  by code_simp

lemma still_run:
  "processVideo still_env scenario_video scenario_options =
     [OnProgress 5 AnalyzingVideo, OnProgress 15 DetectingScenes, OnProgress 30 ExtractingClips,
      OnProgress 90 (ExtractingClip 1 1), OnProgress 100 ProcessingComplete,
      OnComplete
        \<lparr>pr_clips =
           [\<lparr>cr_filePath = ''uploads/clips/a_scene_1.mp4'',
             cr_thumbnailPath = ''uploads/thumbnails/a_scene_1.jpg'',
             cr_startTime = 0, cr_endTime = 10000\<rparr>],
         pr_duration = 10000, pr_format = ''H264'', pr_resolution = ''1920 x 1080''\<rparr>]"
  by code_simp

subsection \<open>Order facts\<close>

lemma sorted_clipProgress:
  "sorted (map (\<lambda>i. clipProgress i n) (filter P [0..<m]))"
proof -
  have "sorted (filter P [0..<m])" by (simp add: sorted_wrt_filter)
  then have "sorted_wrt (\<lambda>i j. clipProgress i n \<le> clipProgress j n) (filter P [0..<m])"
    by (rule sorted_wrt_mono_rel [rotated]) (simp add: clipProgress_mono)
  then show ?thesis by (simp add: sorted_map)
qed

lemma insort_zero:
  "\<forall>x \<in> set xs. (0::int) \<le> x \<Longrightarrow> insort 0 xs = 0 # xs"
  by (cases xs) simp_all

subsection \<open>Storing the clips\<close>

lemma createClip_sceneIndex:
  "createClip c s = (c', s') \<Longrightarrow> c_sceneIndex c' = c_sceneIndex c"
  by (auto simp add: createClip_def Let_def)

lemma saveClips_indices:
  "saveClips e videoId rcs i s acc = (s', cl) \<Longrightarrow> i \<le> length rcs \<Longrightarrow>
     map ci_sceneIndex cl = map ci_sceneIndex acc @ map int [i..<length rcs]"
proof (induction "length rcs - i" arbitrary: i s acc)
  case 0
  then have eq: "i = length rcs" by simp
  have "\<not> i < length rcs" using eq by simp
  then have "saveClips e videoId rcs i s acc = (s, acc)"
    by (subst saveClips.simps) simp
  with "0.prems" eq show ?case by simp
next
  case (Suc k)
  then have lt: "i < length rcs" by simp
  obtain c s1 where cc: "createClip
       \<lparr>c_id = 0, c_videoId = videoId, c_filename = path_basename e (cr_filePath (rcs ! i)),
        c_filePath = cr_filePath (rcs ! i), c_thumbnailPath = cr_thumbnailPath (rcs ! i),
        c_startTime = cr_startTime (rcs ! i), c_endTime = cr_endTime (rcs ! i),
        c_duration = cr_endTime (rcs ! i) - cr_startTime (rcs ! i),
        c_sceneIndex = int i\<rparr> s = (c, s1)"
    by (cases "createClip
       \<lparr>c_id = 0, c_videoId = videoId, c_filename = path_basename e (cr_filePath (rcs ! i)),
        c_filePath = cr_filePath (rcs ! i), c_thumbnailPath = cr_thumbnailPath (rcs ! i),
        c_startTime = cr_startTime (rcs ! i), c_endTime = cr_endTime (rcs ! i),
        c_duration = cr_endTime (rcs ! i) - cr_startTime (rcs ! i),
        c_sceneIndex = int i\<rparr> s")
  from createClip_sceneIndex [OF cc] have idx: "ci_sceneIndex (clipInfo_of c) = int i"
    by (simp add: clipInfo_of_def)
  from Suc.prems(1) lt cc
  have rec: "saveClips e videoId rcs (Suc i) s1 (acc @ [clipInfo_of c]) = (s', cl)"
    by (simp add: saveClips.simps [of e videoId rcs i] Let_def)
  have "k = length rcs - Suc i" using Suc.hyps(2) by simp
  from Suc.hyps(1) [OF this rec] lt idx
  show ?case by (simp add: upt_conv_Cons)
qed

lemma onComplete_status_completed:
  assumes "onComplete_status e videoId results s = (s', Some st)"
    and "ps_status st = ''completed''"
  shows "ps_clips st = Some (snd (saveClips e videoId (pr_clips results) 0 s []))"
  using assms
  by (auto simp add: onComplete_status_def Let_def errorStatus_def
        split: prod.splits sum.splits)

lemma scenario_onComplete:
  "snd (onComplete_status scenario_env 1 scenario_results extracting) = Some scenario_completed"
  by code_simp

lemma processVideo_results:
  assumes "getVideoInfo e (v_filePath v) = Inr info"
    and "detectScenes e (v_filePath v) (threshold_of opts) = Inr scenes"
    and "OnComplete res \<in> set (processVideo e v opts)"
  shows "pr_clips res = map (clipAt e v opts scenes (pi_duration info))
                          (retainedIndices scenes (pi_duration info))"
proof -
  have "completed (processVideo e v opts)"
    unfolding completed_def list_ex_iff
    by (rule bexI [of _ "OnComplete res"]) (simp_all add: assms(3))
  from processVideo_completed [OF assms(1,2) this] assms(3)
  show ?thesis by (auto simp add: clipCall_def)
qed

section \<open>Properties of the routes\<close>

lemma processVideo_first:
  "\<exists>rest. processVideo e v opts = OnProgress 5 AnalyzingVideo # rest"
  by (simp add: processVideo_def)

lemma broadcastStatus_storage [simp]:
  "st_videos (broadcastStatus videoId status s) = st_videos s"
  "st_running (broadcastStatus videoId status s) = st_running s"
  by (simp_all add: broadcastStatus_def)

lemma uploaded_video:
  "getVideo 1 uploaded = Some scenario_video"
  by code_simp

lemma started_video:
  "getVideo 1 started = Some (scenario_video\<lparr>v_processingStatus := ''processing''\<rparr>)"
  by code_simp

lemma started_running:
  "map fst (st_running started) = [1]"
  by code_simp

lemma started_unknown:
  "getVideo 2 started = None"
  by code_simp


lemma started_clients:
  "wss_clients started =
     [\<lparr>ws_readyState = 1,
       ws_sent = [\<lparr>ps_videoId = Some 1, ps_status = ''processing'', ps_progress = Some 5,
                  ps_stage = Some ''Analyzing video...'', ps_error = None, ps_clips = None,
                  ps_videoInfo = None\<rparr>],
       ws_watching = Some 1\<rparr>]"
  by code_simp


section \<open>The claims\<close>

subsection \<open>C3: the progress percentages\<close>

text \<open>
  C3, as amended.  In every run whose probe and scan succeed, the progress calls are 5
  (analysing), 15 (detecting), 30 (extracting), then one call for each candidate that
  was kept before the loop stopped at index \<open>m\<close>, candidate \<open>i\<close> of \<open>n\<close> (counted from 0)
  reporting \<open>30 + \<lfloor>60 (i + 1) / n\<rfloor>\<close>, and 100 after these exactly when the run completes, in
  which case the loop went through all \<open>n\<close> candidates.  The share spread over the candidates
  is 60 points, not 70: extraction ends at 90 at most.
\<close>

theorem progress_percentages:
  assumes "getVideoInfo e (v_filePath v) = Inr info"
    and "detectScenes e (v_filePath v) (threshold_of opts) = Inr scenes"
  shows "\<exists>m. m \<le> length scenes \<and>
     progress_calls (processVideo e v opts) =
       [(5, AnalyzingVideo), (15, DetectingScenes), (30, ExtractingClips)]
       @ map (\<lambda>i. (30 + (int i + 1) * 60 div int (length scenes),
                   ExtractingClip (i + 1) (length scenes)))
           (filter (retained scenes (pi_duration info)) [0..<m])
       @ (if completed (processVideo e v opts) then [(100, ProcessingComplete)] else []) \<and>
     (completed (processVideo e v opts) \<longrightarrow> m = length scenes)"
  using processVideo_shape [OF assms] by (simp add: clipProgress_div)

text \<open>The run of the 10000 ms scenario reports 5, 15, 30, 45, 75, 90, 100.\<close>

theorem progress_percentages_witness:
  "getVideoInfo scenario_env (v_filePath scenario_video)
     = Inr \<lparr>pi_duration = 10000, pi_format = ''H264'', pi_resolution = ''1920 x 1080''\<rparr> \<and>
   detectScenes scenario_env (v_filePath scenario_video) (threshold_of scenario_options)
     = Inr [0, 2000, 2300, 7000] \<and>
   completed (processVideo scenario_env scenario_video scenario_options) \<and>
   progress_calls (processVideo scenario_env scenario_video scenario_options) =
     [(5, AnalyzingVideo), (15, DetectingScenes), (30, ExtractingClips),
      (45, ExtractingClip 1 4), (75, ExtractingClip 3 4), (90, ExtractingClip 4 4),
      (100, ProcessingComplete)]"
proof -
  have fin: "completed (processVideo scenario_env scenario_video scenario_options)"
    by (simp add: scenario_run)
  from progress_percentages [OF scenario_probe scenario_scenes] fin
  have "progress_calls (processVideo scenario_env scenario_video scenario_options) =
       [(5, AnalyzingVideo), (15, DetectingScenes), (30, ExtractingClips)]
       @ map (\<lambda>i. (30 + (int i + 1) * 60 div int (length [0, 2000, 2300, 7000 :: int]),
                   ExtractingClip (i + 1) (length [0, 2000, 2300, 7000 :: int])))
           (filter (retained [0, 2000, 2300, 7000] 10000) [0..<length [0, 2000, 2300, 7000 :: int]])
       @ [(100, ProcessingComplete)]"
    by auto
  then have "progress_calls (processVideo scenario_env scenario_video scenario_options) =
     [(5, AnalyzingVideo), (15, DetectingScenes), (30, ExtractingClips),
      (45, ExtractingClip 1 4), (75, ExtractingClip 3 4), (90, ExtractingClip 4 4),
      (100, ProcessingComplete)]"
    using scenario_retained by (simp add: retainedIndices_def)
  with fin scenario_probe scenario_scenes show ?thesis by simp
qed

text \<open>
  After the fourth of four candidates the run reports 90, where 30 plus the whole of 70
  points would be 100.
\<close>

theorem progress_share_counterexample:
  "(90, ExtractingClip 4 4)
     \<in> set (progress_calls (processVideo scenario_env scenario_video scenario_options)) \<and>
   spec_clipProgress 4 4 = 100 \<and>
   (of_int 90 :: rat) \<noteq> spec_clipProgress 4 4"
  by (simp add: scenario_run spec_clipProgress_def)

subsection \<open>C4: one progress call per kept candidate\<close>

text \<open>
  C4, as amended.  In every run that completes, the loop makes one progress call for each
  candidate it keeps and none for a candidate it discards for lasting less than 500 ms:
  with \<open>r\<close> candidates kept and \<open>d\<close> discarded out of \<open>r + d\<close>, there are \<open>r\<close> per-candidate
  progress calls.
\<close>

theorem per_candidate_events:
  assumes "getVideoInfo e (v_filePath v) = Inr info"
    and "detectScenes e (v_filePath v) (threshold_of opts) = Inr scenes"
    and "completed (processVideo e v opts)"
  shows "length (filter per_candidate (progress_calls (processVideo e v opts)))
           = length (retainedIndices scenes (pi_duration info)) \<and>
         length (retainedIndices scenes (pi_duration info))
           + length (discardedIndices scenes (pi_duration info)) = length scenes"
proof -
  have "filter per_candidate
          (map (\<lambda>i. (clipProgress i (length scenes), ExtractingClip (i + 1) (length scenes))) js)
        = map (\<lambda>i. (clipProgress i (length scenes), ExtractingClip (i + 1) (length scenes))) js"
    for js by (induction js) simp_all
  then have "length (filter per_candidate (progress_calls (processVideo e v opts)))
               = length (retainedIndices scenes (pi_duration info))"
    by (simp add: processVideo_completed [OF assms])
  moreover have "length (retainedIndices scenes (pi_duration info))
           + length (discardedIndices scenes (pi_duration info)) = length scenes"
    using sum_length_filter_compl [of "retained scenes (pi_duration info)" "[0..<length scenes]"]
    by (simp add: retainedIndices_def discardedIndices_def)
  ultimately show ?thesis by simp
qed

text \<open>The scenario keeps 3 candidates, discards 1 and makes 3 per-candidate calls.\<close>

theorem per_candidate_events_witness:
  "getVideoInfo scenario_env (v_filePath scenario_video)
     = Inr \<lparr>pi_duration = 10000, pi_format = ''H264'', pi_resolution = ''1920 x 1080''\<rparr> \<and>
   detectScenes scenario_env (v_filePath scenario_video) (threshold_of scenario_options)
     = Inr [0, 2000, 2300, 7000] \<and>
   completed (processVideo scenario_env scenario_video scenario_options) \<and>
   length (filter per_candidate
             (progress_calls (processVideo scenario_env scenario_video scenario_options))) = 3 \<and>
   length (discardedIndices [0, 2000, 2300, 7000] 10000) = 1"
proof -
  have fin: "completed (processVideo scenario_env scenario_video scenario_options)"
    by (simp add: scenario_run)
  from per_candidate_events [OF scenario_probe scenario_scenes fin]
  show ?thesis using fin scenario_probe scenario_scenes scenario_retained by simp
qed

text \<open>With one candidate discarded and three kept, there are not four per-candidate calls.\<close>

theorem discarded_candidate_counterexample:
  "detectScenes scenario_env (v_filePath scenario_video) (threshold_of scenario_options)
     = Inr [0, 2000, 2300, 7000] \<and>
   length (discardedIndices [0, 2000, 2300, 7000] 10000) = 1 \<and>
   length (retainedIndices [0, 2000, 2300, 7000] 10000) = 3 \<and>
   length (filter per_candidate
             (progress_calls (processVideo scenario_env scenario_video scenario_options)))
     \<noteq> length (discardedIndices [0, 2000, 2300, 7000] 10000)
         + length (retainedIndices [0, 2000, 2300, 7000] 10000)"
  by (simp add: scenario_scenes scenario_run scenario_retained discardedIndices_def
        retained_def candidateDuration_def nextScene_def upt_rec)

subsection \<open>C7: progress never goes back\<close>

text \<open>
  C7.  In every run, whatever its outcome, the progress calls are non-decreasing in
  percentage and ordered by phase: a call of an earlier phase is never made after a call of
  a later one.
\<close>

theorem progress_monotone:
  "sorted (map fst (progress_calls (processVideo e v opts))) \<and>
   sorted (map (phase_rank \<circ> snd) (progress_calls (processVideo e v opts)))"
proof (cases "getVideoInfo e (v_filePath v)")
  case (Inl err)
  then show ?thesis by (simp add: processVideo_def)
next
  case probe: (Inr info)
  show ?thesis
  proof (cases "detectScenes e (v_filePath v) (threshold_of opts)")
    case (Inl err)
    with probe show ?thesis by (simp add: processVideo_def)
  next
    case scan: (Inr scenes)
    let ?n = "length scenes"
    from processVideo_shape [OF probe scan] obtain m where
      m: "m \<le> ?n" and
      calls: "progress_calls (processVideo e v opts) =
         [(5, AnalyzingVideo), (15, DetectingScenes), (30, ExtractingClips)]
         @ map (\<lambda>i. (clipProgress i ?n, ExtractingClip (i + 1) ?n))
             (filter (retained scenes (pi_duration info)) [0..<m])
         @ (if completed (processVideo e v opts) then [(100, ProcessingComplete)] else [])"
      by blast
    let ?js = "filter (retained scenes (pi_duration info)) [0..<m]"
    have bounds: "30 \<le> clipProgress i ?n \<and> clipProgress i ?n \<le> 90" if "i \<in> set ?js" for i
    proof -
      from that m have "i < ?n" by simp
      then show ?thesis by (simp add: clipProgress_bounds)
    qed
    have pct: "map fst (progress_calls (processVideo e v opts)) =
        [5, 15, 30] @ map (\<lambda>i. clipProgress i ?n) ?js
        @ (if completed (processVideo e v opts) then [100] else [])"
      by (simp add: calls comp_def)
    have ph: "map (phase_rank \<circ> snd) (progress_calls (processVideo e v opts)) =
        [1, 2, 3] @ replicate (length ?js) 3
        @ (if completed (processVideo e v opts) then [4] else [])"
      by (simp add: calls comp_def map_replicate_const)
    have "sorted ([5, 15, 30] @ map (\<lambda>i. clipProgress i ?n) ?js
        @ (if completed (processVideo e v opts) then [100] else []))"
      using bounds sorted_clipProgress [of ?n "retained scenes (pi_duration info)" m]
      by (force simp add: sorted_append)
    moreover have "sorted ([1, 2, 3] @ replicate (length ?js) (3::nat)
        @ (if completed (processVideo e v opts) then [4] else []))"
      by (simp add: sorted_append)
    ultimately show ?thesis by (simp only: pct ph)
  qed
qed

subsection \<open>C2: a source without a detected cut\<close>

text \<open>
  C2 asks for a failed run when the scan finds no boundary.  On a scan whose output has no
  \<open>pts_time:\<close> line, \<open>detectScenes\<close> still resolves with its initial \<open>[0]\<close>, the test
  \<open>scenes.length === 0\<close> of \<open>processVideo\<close> does not fire, and the run completes with one
  clip that spans the whole 10000 ms.
\<close>

theorem still_source_completes:
  "ffmpeg_scene still_env (v_filePath scenario_video) (threshold_of scenario_options)
     = ScanStderr [None, None] \<and>
   detectScenes still_env (v_filePath scenario_video) (threshold_of scenario_options) = Inr [0] \<and>
   completed (processVideo still_env scenario_video scenario_options) \<and>
   processVideo still_env scenario_video scenario_options =
     [OnProgress 5 AnalyzingVideo, OnProgress 15 DetectingScenes, OnProgress 30 ExtractingClips,
      OnProgress 90 (ExtractingClip 1 1), OnProgress 100 ProcessingComplete,
      OnComplete
        \<lparr>pr_clips =
           [\<lparr>cr_filePath = ''uploads/clips/a_scene_1.mp4'',
             cr_thumbnailPath = ''uploads/thumbnails/a_scene_1.jpg'',
             cr_startTime = 0, cr_endTime = 10000\<rparr>],
         pr_duration = 10000, pr_format = ''H264'', pr_resolution = ''1920 x 1080''\<rparr>]"
proof -
  have "ffmpeg_scene still_env (v_filePath scenario_video) (threshold_of scenario_options)
          = ScanStderr [None, None]"
    by (simp add: still_env_def)
  moreover from this
  have "detectScenes still_env (v_filePath scenario_video) (threshold_of scenario_options) = Inr [0]"
    by (simp add: detectScenes_def map_filter_simps)
  ultimately show ?thesis by (simp add: still_run)
qed

subsection \<open>C8: the order of the detected boundaries\<close>

text \<open>
  C8, as amended.  Whenever the ffmpeg command succeeds, \<open>detectScenes\<close> resolves with a
  list that is sorted ascending, begins with 0 and holds, besides that 0, every timestamp
  the scan reported, as often as it was reported.
\<close>

theorem detectScenes_sorted:
  assumes "ffmpeg_scene e p t = ScanStderr lines"
  shows "\<exists>scenes. detectScenes e p t = Inr scenes \<and> sorted scenes \<and> scenes \<noteq> [] \<and>
           hd scenes = 0 \<and> mset scenes = mset (0 # map int (List.map_filter id lines))"
proof -
  let ?xs = "map int (List.map_filter id lines)"
  have "\<forall>x \<in> set (sort ?xs). 0 \<le> x" by auto
  then have "sort (0 # ?xs) = 0 # sort ?xs" by (simp add: insort_zero)
  then show ?thesis using assms by (simp add: detectScenes_def)
qed

text \<open>The scan of the scenario gives 0, 2000, 2300, 7000.\<close>

theorem detectScenes_sorted_witness:
  "ffmpeg_scene scenario_env ''uploads/a.mp4'' SCENE_THRESHOLD
     = ScanStderr [None, Some 2000, Some 2300, None, Some 7000] \<and>
   detectScenes scenario_env ''uploads/a.mp4'' SCENE_THRESHOLD = Inr [0, 2000, 2300, 7000] \<and>
   sorted [0, 2000, 2300, 7000 :: int]"
proof -
  have scan: "ffmpeg_scene scenario_env ''uploads/a.mp4'' SCENE_THRESHOLD
     = ScanStderr [None, Some 2000, Some 2300, None, Some 7000]"
    by (simp add: scenario_env_def)
  from detectScenes_sorted [OF scan] obtain scenes where
    "detectScenes scenario_env ''uploads/a.mp4'' SCENE_THRESHOLD = Inr scenes" "sorted scenes"
    by blast
  moreover have "detectScenes scenario_env ''uploads/a.mp4'' SCENE_THRESHOLD
                   = Inr [0, 2000, 2300, 7000]"
    by (simp add: detectScenes_def scenario_env_def map_filter_simps)
  ultimately show ?thesis using scan by simp
qed

text \<open>
  Two reported frames in the same millisecond give a list with a repeated boundary, which
  is not strictly increasing.
\<close>

theorem duplicate_boundary_counterexample:
  "detectScenes twin_env ''uploads/a.mp4'' SCENE_THRESHOLD = Inr [0, 2000, 2000] \<and>
   \<not> sorted_wrt (<) [0, 2000, 2000 :: int] \<and> \<not> distinct [0, 2000, 2000 :: int]"
  by (simp add: detectScenes_def twin_env_def scenario_env_def map_filter_simps)

subsection \<open>C5: the scene indices of a completed run\<close>

text \<open>
  C5.  For every run that completes and whose \<open>onComplete\<close> broadcasts the completed
  status, the scene indices of the clips in that status are exactly \<open>0, 1, \<dots>, r - 1\<close>, where
  \<open>r\<close> is the number of candidates the loop kept, however many it discarded.
\<close>

theorem scene_indices_contiguous:
  assumes "getVideoInfo e (v_filePath v) = Inr info"
    and "detectScenes e (v_filePath v) (threshold_of opts) = Inr scenes"
    and "OnComplete res \<in> set (processVideo e v opts)"
    and "onComplete_status e videoId res s = (s', Some st)"
    and "ps_status st = ''completed''"
  shows "map_option (map ci_sceneIndex) (ps_clips st)
           = Some (map int [0..<length (retainedIndices scenes (pi_duration info))])"
proof -
  obtain s1 cl where sv: "saveClips e videoId (pr_clips res) 0 s [] = (s1, cl)"
    by (cases "saveClips e videoId (pr_clips res) 0 s []")
  from saveClips_indices [OF sv]
  have "map ci_sceneIndex cl = map int [0..<length (pr_clips res)]" by simp
  moreover have "length (pr_clips res) = length (retainedIndices scenes (pi_duration info))"
    by (simp add: processVideo_results [OF assms(1,2,3)])
  moreover have "ps_clips st = Some cl"
    using onComplete_status_completed [OF assms(4,5)] sv by simp
  ultimately show ?thesis by simp
qed

text \<open>The scenario discards one candidate of four and numbers its clips 0, 1, 2.\<close>

theorem scene_indices_contiguous_witness:
  "getVideoInfo scenario_env (v_filePath scenario_video)
     = Inr \<lparr>pi_duration = 10000, pi_format = ''H264'', pi_resolution = ''1920 x 1080''\<rparr> \<and>
   detectScenes scenario_env (v_filePath scenario_video) (threshold_of scenario_options)
     = Inr [0, 2000, 2300, 7000] \<and>
   OnComplete scenario_results
     \<in> set (processVideo scenario_env scenario_video scenario_options) \<and>
   snd (onComplete_status scenario_env 1 scenario_results extracting) = Some scenario_completed \<and>
   ps_status scenario_completed = ''completed'' \<and>
   length (discardedIndices [0, 2000, 2300, 7000] 10000) = 1 \<and>
   map_option (map ci_sceneIndex) (ps_clips scenario_completed) = Some [0, 1, 2]"
proof -
  have run: "OnComplete scenario_results
               \<in> set (processVideo scenario_env scenario_video scenario_options)"
    by (simp add: scenario_run scenario_results_def)
  have st: "onComplete_status scenario_env 1 scenario_results extracting
              = (fst (onComplete_status scenario_env 1 scenario_results extracting),
                 Some scenario_completed)"
    using scenario_onComplete by (simp add: prod_eq_iff)
  have ok: "ps_status scenario_completed = ''completed''"
    by (simp add: scenario_completed_def)
  have d: "length (discardedIndices [0, 2000, 2300, 7000] 10000) = 1"
    by (simp add: discardedIndices_def retained_def candidateDuration_def nextScene_def upt_rec)
  from scene_indices_contiguous [OF scenario_probe scenario_scenes run st ok]
  have "map_option (map ci_sceneIndex) (ps_clips scenario_completed) = Some [0, 1, 2]"
    by (simp add: scenario_retained upt_rec)
  with run scenario_onComplete ok d scenario_probe scenario_scenes show ?thesis by simp
qed

subsection \<open>C6: the 10000 ms scenario\<close>

text \<open>
  C6.  With a probed duration of 10000 ms and the boundaries 0, 2000, 2300, 7000, the
  candidates last 2000, 300, 4700 and 3000 ms, the one of 300 ms is discarded, and the
  completed result has three clips with the indices 0, 1, 2 and the ranges 0 to 2000, 2300
  to 7000 and 7000 to 10000.
\<close>

theorem scenario_result:
  "detectScenes scenario_env (v_filePath scenario_video) (threshold_of scenario_options)
     = Inr [0, 2000, 2300, 7000] \<and>
   map (candidateDuration [0, 2000, 2300, 7000] 10000) [0, 1, 2, 3] = [2000, 300, 4700, 3000] \<and>
   discardedIndices [0, 2000, 2300, 7000] 10000 = [1] \<and>
   last (processVideo scenario_env scenario_video scenario_options) = OnComplete scenario_results \<and>
   map (\<lambda>c. (cr_startTime c, cr_endTime c)) (pr_clips scenario_results)
     = [(0, 2000), (2300, 7000), (7000, 10000)] \<and>
   snd (onComplete_status scenario_env 1 scenario_results extracting) = Some scenario_completed \<and>
   ps_status scenario_completed = ''completed'' \<and>
   map_option (map (\<lambda>c. (ci_sceneIndex c, ci_startTime c, ci_endTime c)))
       (ps_clips scenario_completed)
     = Some [(0, 0, 2000), (1, 2300, 7000), (2, 7000, 10000)]"
proof -
  have "map (candidateDuration [0, 2000, 2300, 7000] 10000) [0, 1, 2, 3] = [2000, 300, 4700, 3000]"
    by (simp add: candidateDuration_def nextScene_def)
  moreover have "discardedIndices [0, 2000, 2300, 7000] 10000 = [1]"
    by (simp add: discardedIndices_def retained_def candidateDuration_def nextScene_def upt_rec)
  moreover have "last (processVideo scenario_env scenario_video scenario_options)
                   = OnComplete scenario_results"
    by (simp add: scenario_run scenario_results_def)
  moreover have "map (\<lambda>c. (cr_startTime c, cr_endTime c)) (pr_clips scenario_results)
     = [(0, 2000), (2300, 7000), (7000, 10000)]"
    by (simp add: scenario_results_def)
  moreover have "map_option (map (\<lambda>c. (ci_sceneIndex c, ci_startTime c, ci_endTime c)))
       (ps_clips scenario_completed)
     = Some [(0, 0, 2000), (1, 2300, 7000), (2, 7000, 10000)]"
    by (simp add: scenario_completed_def)
  moreover have "ps_status scenario_completed = ''completed''"
    by (simp add: scenario_completed_def)
  ultimately show ?thesis using scenario_scenes scenario_onComplete by simp
qed

subsection \<open>C10: the broadcast\<close>

text \<open>
  C10.  \<open>broadcastStatus\<close> sends the payload to every client whose connection is open,
  whatever video the page behind it shows, and leaves every other client as it was; the
  payload carries a \<open>videoId\<close>, which is the one given whenever the status has none of its
  own.
\<close>

theorem broadcast_to_every_open_client:
  "length (wss_clients (broadcastStatus videoId status s)) = length (wss_clients s) \<and>
   (\<forall>k < length (wss_clients s).
      (ws_readyState (wss_clients s ! k) = 1 \<longrightarrow>
         wss_clients (broadcastStatus videoId status s) ! k
           = (wss_clients s ! k)\<lparr>ws_sent := ws_sent (wss_clients s ! k) @ [payload videoId status]\<rparr>) \<and>
      (ws_readyState (wss_clients s ! k) \<noteq> 1 \<longrightarrow>
         wss_clients (broadcastStatus videoId status s) ! k = wss_clients s ! k)) \<and>
   ps_videoId (payload videoId status) \<noteq> None \<and>
   (ps_videoId status = None \<longrightarrow> ps_videoId (payload videoId status) = Some videoId)"
  by (simp add: broadcastStatus_def payload_def split: option.splits)

text \<open>
  An error status for video 1 reaches the open client, whose page shows video 2, and not
  the closed one.
\<close>

theorem broadcast_to_every_open_client_witness:
  "length (wss_clients two_clients) = 2 \<and>
   ws_readyState (wss_clients two_clients ! 0) = 1 \<and>
   ws_watching (wss_clients two_clients ! 0) = Some 2 \<and>
   ws_readyState (wss_clients two_clients ! 1) \<noteq> 1 \<and>
   ps_videoId (errorStatus ''no space left'') = None \<and>
   wss_clients (broadcastStatus 1 (errorStatus ''no space left'') two_clients) =
     [\<lparr>ws_readyState = 1,
       ws_sent = [(errorStatus ''no space left'')\<lparr>ps_videoId := Some 1\<rparr>],
       ws_watching = Some 2\<rparr>,
      \<lparr>ws_readyState = 3, ws_sent = [], ws_watching = Some 1\<rparr>]"
proof -
  have len: "length (wss_clients two_clients) = 2" by (simp add: two_clients_def)
  have c0: "wss_clients two_clients ! 0 = \<lparr>ws_readyState = 1, ws_sent = [], ws_watching = Some 2\<rparr>"
    and c1: "wss_clients two_clients ! 1 = \<lparr>ws_readyState = 3, ws_sent = [], ws_watching = Some 1\<rparr>"
    by (simp_all add: two_clients_def)
  have nov: "ps_videoId (errorStatus ''no space left'') = None" by (simp add: errorStatus_def)
  let ?s' = "broadcastStatus 1 (errorStatus ''no space left'') two_clients"
  note b = broadcast_to_every_open_client [of 1 "errorStatus ''no space left''" two_clients]
  from b len have l': "length (wss_clients ?s') = 2" by simp
  from b len have "\<forall>k<2. (ws_readyState (wss_clients two_clients ! k) = 1 \<longrightarrow>
         wss_clients ?s' ! k
           = (wss_clients two_clients ! k)\<lparr>ws_sent := ws_sent (wss_clients two_clients ! k)
                @ [payload 1 (errorStatus ''no space left'')]\<rparr>) \<and>
      (ws_readyState (wss_clients two_clients ! k) \<noteq> 1 \<longrightarrow>
         wss_clients ?s' ! k = wss_clients two_clients ! k)"
    by simp
  then have k0: "wss_clients ?s' ! 0 = \<lparr>ws_readyState = 1,
       ws_sent = [(errorStatus ''no space left'')\<lparr>ps_videoId := Some 1\<rparr>], ws_watching = Some 2\<rparr>"
    and k1: "wss_clients ?s' ! 1 = \<lparr>ws_readyState = 3, ws_sent = [], ws_watching = Some 1\<rparr>"
    using c0 c1 nov by (simp_all add: payload_def)
  have "wss_clients ?s' = [wss_clients ?s' ! 0, wss_clients ?s' ! 1]"
    using l' by (cases "wss_clients ?s'" rule: list.exhaust; cases "tl (wss_clients ?s')") auto
  with k0 k1 len c0 c1 nov show ?thesis by simp
qed

subsection \<open>C1: starting a run\<close>

text \<open>
  C1, as amended.  The process route accepts a start request for every video that exists,
  whatever its stored processing status: it sets the status to \<open>processing\<close>, begins a new
  run next to those already in flight, and sends the first progress payload of that run
  (\<open>processing\<close>, 5, \<open>Analyzing video...\<close>, with the video id) to every open client and to
  no other; the clips and the two counters stay as they were.  It rejects a request only
  for an id that does not parse (400) or a video that does not exist (404), and then
  leaves the state as it was.
\<close>

theorem start_accepted_whatever_status:
  "(getVideo videoId s = Some v \<longrightarrow>
      fst (process_route e (Some videoId) s) = Message 200 ''Processing started'' \<and>
      map_option v_processingStatus (getVideo videoId (snd (process_route e (Some videoId) s)))
        = Some ''processing'' \<and>
      (\<exists>rest. processVideo e v \<lparr>po_outputDir = clipsDir e, po_thumbnailDir = thumbnailsDir e,
                                 po_threshold = None\<rparr> = OnProgress 5 AnalyzingVideo # rest \<and>
          st_running (snd (process_route e (Some videoId) s)) = st_running s @ [(videoId, rest)]) \<and>
      wss_clients (snd (process_route e (Some videoId) s)) =
        map (\<lambda>c. if ws_readyState c = 1
                 then c\<lparr>ws_sent := ws_sent c @
                         [\<lparr>ps_videoId = Some videoId, ps_status = ''processing'',
                           ps_progress = Some 5, ps_stage = Some ''Analyzing video...'',
                           ps_error = None, ps_clips = None, ps_videoInfo = None\<rparr>]\<rparr>
                 else c)
            (wss_clients s) \<and>
      st_videos (snd (process_route e (Some videoId) s))
        = (st_videos s)(videoId \<mapsto> v\<lparr>v_processingStatus := ''processing''\<rparr>) \<and>
      st_clips (snd (process_route e (Some videoId) s)) = st_clips s \<and>
      st_videoId (snd (process_route e (Some videoId) s)) = st_videoId s \<and>
      st_clipId (snd (process_route e (Some videoId) s)) = st_clipId s) \<and>
   (getVideo videoId s = None \<longrightarrow>
      process_route e (Some videoId) s = (Message 404 ''Video not found'', s)) \<and>
   process_route e None s = (Message 400 ''Invalid video ID'', s)"
proof -
  let ?opts = "\<lparr>po_outputDir = clipsDir e, po_thumbnailDir = thumbnailsDir e, po_threshold = None\<rparr>"
  let ?r = "process_route e (Some videoId) s"
  obtain rest where first: "processVideo e v ?opts = OnProgress 5 AnalyzingVideo # rest"
    using processVideo_first by blast
  have acc: "fst ?r = Message 200 ''Processing started'' \<and>
      map_option v_processingStatus (getVideo videoId (snd ?r)) = Some ''processing'' \<and>
      (\<exists>rest. processVideo e v ?opts = OnProgress 5 AnalyzingVideo # rest \<and>
          st_running (snd ?r) = st_running s @ [(videoId, rest)])"
    if "getVideo videoId s = Some v"
    using that first
    by (simp add: process_route_def getVideo_def updateVideoStatus_def updateVideo_def
          onProgress_def)
  have sent: "wss_clients (snd ?r) =
        map (\<lambda>c. if ws_readyState c = 1
                 then c\<lparr>ws_sent := ws_sent c @
                         [\<lparr>ps_videoId = Some videoId, ps_status = ''processing'',
                           ps_progress = Some 5, ps_stage = Some ''Analyzing video...'',
                           ps_error = None, ps_clips = None, ps_videoInfo = None\<rparr>]\<rparr>
                 else c)
            (wss_clients s)"
    if "getVideo videoId s = Some v"
    using that first
    by (simp add: process_route_def getVideo_def updateVideoStatus_def updateVideo_def
          onProgress_def broadcastStatus_def payload_def)
  have rest_of_state: "st_videos (snd ?r)
        = (st_videos s)(videoId \<mapsto> v\<lparr>v_processingStatus := ''processing''\<rparr>) \<and>
      st_clips (snd ?r) = st_clips s \<and> st_videoId (snd ?r) = st_videoId s \<and>
      st_clipId (snd ?r) = st_clipId s"
    if "getVideo videoId s = Some v"
    using that first
    by (simp add: process_route_def getVideo_def updateVideoStatus_def updateVideo_def
          onProgress_def broadcastStatus_def)
  have nf: "process_route e (Some videoId) s = (Message 404 ''Video not found'', s)"
    if "getVideo videoId s = None"
    using that by (simp add: process_route_def)
  have bad: "process_route e None s = (Message 400 ''Invalid video ID'', s)"
    by (simp add: process_route_def)
  from acc sent rest_of_state nf bad show ?thesis by blast
qed

text \<open>
  Video 1 is being processed and a second start request is accepted: the open client is
  sent the payload with progress 5 a second time.  There is no video 2.
\<close>

theorem start_accepted_whatever_status_witness:
  "getVideo 1 started = Some (scenario_video\<lparr>v_processingStatus := ''processing''\<rparr>) \<and>
   fst (process_route scenario_env (Some 1) started) = Message 200 ''Processing started'' \<and>
   length (st_running (snd (process_route scenario_env (Some 1) started))) = 2 \<and>
   wss_clients (snd (process_route scenario_env (Some 1) started)) =
     [\<lparr>ws_readyState = 1,
       ws_sent = [\<lparr>ps_videoId = Some 1, ps_status = ''processing'', ps_progress = Some 5,
                  ps_stage = Some ''Analyzing video...'', ps_error = None, ps_clips = None,
                  ps_videoInfo = None\<rparr>,
                 \<lparr>ps_videoId = Some 1, ps_status = ''processing'', ps_progress = Some 5,
                  ps_stage = Some ''Analyzing video...'', ps_error = None, ps_clips = None,
                  ps_videoInfo = None\<rparr>],
       ws_watching = Some 1\<rparr>] \<and>
   getVideo 2 started = None \<and>
   process_route scenario_env (Some 2) started = (Message 404 ''Video not found'', started)"
proof -
  note a = start_accepted_whatever_status
             [of 1 started "scenario_video\<lparr>v_processingStatus := ''processing''\<rparr>" scenario_env]
  note b = start_accepted_whatever_status [of 2 started scenario_video scenario_env]
  have "length (st_running started) = 1"
    using started_running by (metis length_map length_Cons list.size(3) One_nat_def)
  with a started_video
  have "fst (process_route scenario_env (Some 1) started) = Message 200 ''Processing started'' \<and>
        length (st_running (snd (process_route scenario_env (Some 1) started))) = 2"
    by auto
  moreover from a started_video
  have "wss_clients (snd (process_route scenario_env (Some 1) started)) =
     [\<lparr>ws_readyState = 1,
       ws_sent = [\<lparr>ps_videoId = Some 1, ps_status = ''processing'', ps_progress = Some 5,
                  ps_stage = Some ''Analyzing video...'', ps_error = None, ps_clips = None,
                  ps_videoInfo = None\<rparr>,
                 \<lparr>ps_videoId = Some 1, ps_status = ''processing'', ps_progress = Some 5,
                  ps_stage = Some ''Analyzing video...'', ps_error = None, ps_clips = None,
                  ps_videoInfo = None\<rparr>],
       ws_watching = Some 1\<rparr>]"
    by (simp add: started_clients)
  moreover from b started_unknown
  have "process_route scenario_env (Some 2) started = (Message 404 ''Video not found'', started)"
    by simp
  ultimately show ?thesis using started_video started_unknown by simp
qed

text \<open>
  While the run for video 1 is in flight and its status is \<open>processing\<close>, a second start
  request for video 1 is accepted, sends another payload to the client and leaves two runs
  for video 1 in flight.
\<close>

theorem second_start_counterexample:
  "map_option v_processingStatus (getVideo 1 started) = Some ''processing'' \<and>
   map fst (st_running started) = [1] \<and>
   map (length \<circ> ws_sent) (wss_clients started) = [1] \<and>
   fst (process_route scenario_env (Some 1) started) = Message 200 ''Processing started'' \<and>
   map fst (st_running (snd (process_route scenario_env (Some 1) started))) = [1, 1] \<and>
   map (length \<circ> ws_sent) (wss_clients (snd (process_route scenario_env (Some 1) started))) = [2]"
  by code_simp

subsection \<open>C9: the status query\<close>




end
